theory Spec2Isabelle
  imports Complex_Main
begin

section \<open>Python values used by the booking engine\<close>

text \<open>
  The engine of \<^verbatim>\<open>app.py\<close> is embedded function by function. Python exceptions are
  values of a sum type: \<open>Inl\<close> carries the exception, \<open>Inr\<close> the returned value. The only
  exception the modelled functions raise themselves is \<^verbatim>\<open>ValueError\<close> (from \<^verbatim>\<open>int\<close>, from
  unpacking a sequence of the wrong length and from the constructor \<^verbatim>\<open>dt.time\<close>).
\<close>

datatype error = ValueError

subsection \<open>Strings\<close>

text \<open>
  A Python \<^verbatim>\<open>str\<close> is a \<open>string\<close>; the model covers ASCII text: \<^verbatim>\<open>str.lower\<close> maps
  \<^verbatim>\<open>A\<close>..\<^verbatim>\<open>Z\<close> to \<^verbatim>\<open>a\<close>..\<^verbatim>\<open>z\<close> and leaves every other character alone.
\<close>

definition lower_char :: "char \<Rightarrow> char" where
  "lower_char c =
     (let n = (of_char c :: nat) in if 65 \<le> n \<and> n \<le> 90 then char_of (n + 32) else c)"

definition lower :: "string \<Rightarrow> string" where
  "lower s = map lower_char s"

text \<open>
  Equal up to ASCII case, said without \<open>lower\<close>: the same length, and position by position
  the same character or the two cases of one letter.
\<close>

definition same_letter :: "char \<Rightarrow> char \<Rightarrow> bool" where
  "same_letter c d =
     (c = d \<or>
      (let m = (of_char c :: nat); n = (of_char d :: nat)
       in (65 \<le> m \<and> m \<le> 90 \<and> n = m + 32) \<or> (65 \<le> n \<and> n \<le> 90 \<and> m = n + 32)))"

definition eq_ascii_case :: "string \<Rightarrow> string \<Rightarrow> bool" where
  "eq_ascii_case a b = list_all2 same_letter a b"

text \<open>\<^verbatim>\<open>s.split(sep)\<close> for a one-character separator: never an empty list.\<close>

fun split_on :: "char \<Rightarrow> string \<Rightarrow> string list" where
  "split_on sep [] = [[]]"
| "split_on sep (c # cs) =
     (if c = sep then [] # split_on sep cs
      else (case split_on sep cs of
              [] \<Rightarrow> [[c]]
            | w # ws \<Rightarrow> (c # w) # ws))"

text \<open>
  \<^verbatim>\<open>int(s)\<close> on a string: surrounding white space is dropped, one sign is allowed, and the
  rest must be decimal digits, where single underscores may separate digits.
\<close>

definition is_space :: "char \<Rightarrow> bool" where
  "is_space c = (let n = (of_char c :: nat) in (9 \<le> n \<and> n \<le> 13) \<or> n = 32)"

definition strip :: "string \<Rightarrow> string" where
  "strip s = rev (dropWhile is_space (rev (dropWhile is_space s)))"

definition is_digit :: "char \<Rightarrow> bool" where
  "is_digit c = (let n = (of_char c :: nat) in 48 \<le> n \<and> n \<le> 57)"

definition digit_val :: "char \<Rightarrow> int" where
  "digit_val c = int (of_char c) - 48"

fun digits_ok :: "string \<Rightarrow> bool" where
  "digits_ok [] = False"
| "digits_ok [c] = is_digit c"
| "digits_ok (c # d # cs) =
     (is_digit c \<and> (if d = CHR ''_'' then digits_ok cs else digits_ok (d # cs)))"

definition digits_value :: "string \<Rightarrow> int" where
  "digits_value s = foldl (\<lambda>acc c. 10 * acc + digit_val c) 0 (filter is_digit s)"

definition py_int :: "string \<Rightarrow> error + int" where
  "py_int s =
     (let t = strip s;
          neg = (case t of [] \<Rightarrow> False | c # cs \<Rightarrow> c = CHR ''-'');
          body = (case t of [] \<Rightarrow> [] | c # cs \<Rightarrow> if c = CHR ''-'' \<or> c = CHR ''+'' then cs else t)
      in if digits_ok body
         then Inr (if neg then - digits_value body else digits_value body)
         else Inl ValueError)"

text \<open>\<^verbatim>\<open>h, m = map(int, s.split(":"))\<close>: exactly two parts, each an integer.\<close>

definition parse_hm :: "string \<Rightarrow> error + (int \<times> int)" where
  "parse_hm s =
     (case split_on CHR '':'' s of
        [a, b] \<Rightarrow>
          (case py_int a of
             Inl e \<Rightarrow> Inl e
           | Inr h \<Rightarrow> (case py_int b of Inl e \<Rightarrow> Inl e | Inr m \<Rightarrow> Inr (h, m)))
      | _ \<Rightarrow> Inl ValueError)"

text \<open>Zero-padded decimal fields, as \<^verbatim>\<open>%02d\<close> and \<^verbatim>\<open>%04d\<close> print numbers below 100 and 10000.\<close>

definition digit_char :: "nat \<Rightarrow> char" where
  "digit_char k = char_of (48 + k mod 10)"

definition zfill2 :: "nat \<Rightarrow> string" where
  "zfill2 n = [digit_char (n div 10), digit_char n]"

definition zfill4 :: "nat \<Rightarrow> string" where
  "zfill4 n = [digit_char (n div 1000), digit_char (n div 100), digit_char (n div 10), digit_char n]"

subsection \<open>Times, dates and durations\<close>

text \<open>
  Every \<^verbatim>\<open>dt.time\<close> of the engine has second and microsecond 0, so a time is its minute of
  the day, \<open>60 * hour + minute\<close>, below 1440; the order of \<^verbatim>\<open>dt.time\<close> is the order of
  these numbers. \<open>dt_time\<close> is the constructor \<^verbatim>\<open>dt.time(h, m)\<close>, which raises outside
  \<open>0 \<le> h < 24\<close>, \<open>0 \<le> m < 60\<close>.
\<close>

type_synonym time = nat

definition dt_time :: "int \<Rightarrow> int \<Rightarrow> error + time" where
  "dt_time h m =
     (if 0 \<le> h \<and> h < 24 \<and> 0 \<le> m \<and> m < 60 then Inr (nat (60 * h + m)) else Inl ValueError)"

definition strftime_HM :: "time \<Rightarrow> string" where
  "strftime_HM t = zfill2 (t div 60) @ '':'' @ zfill2 (t mod 60)"

record date =
  d_year :: nat
  d_month :: nat
  d_day :: nat

definition isoformat :: "date \<Rightarrow> string" where
  "isoformat d = zfill4 (d_year d) @ ''-'' @ zfill2 (d_month d) @ ''-'' @ zfill2 (d_day d)"

text \<open>
  A \<^verbatim>\<open>dt.datetime\<close> built by \<^verbatim>\<open>dt.datetime.combine(date, t)\<close> and moved by timedeltas of
  whole minutes is the number of minutes since midnight of \<open>date\<close>: negative on an earlier
  day, 1440 or more on a later one. All datetimes of one call share the date, so their order
  is the order of these numbers, and \<^verbatim>\<open>.time()\<close> keeps the minute of the day and forgets
  the day. A timedelta is its length in minutes. The calendar has no first or last day: the
  \<^verbatim>\<open>OverflowError\<close> of \<^verbatim>\<open>datetime\<close> arithmetic next to year 1 or year 9999, or for a
  duration beyond the range of \<^verbatim>\<open>timedelta\<close>, is outside the model.
\<close>

type_synonym datetime = int

definition combine :: "date \<Rightarrow> time \<Rightarrow> datetime" where
  "combine d t = int t"

definition time_of :: "datetime \<Rightarrow> time" where
  "time_of x = nat (x mod 1440)"

definition HALF_HOUR :: int where
  "HALF_HOUR = 30"

text \<open>
  \<^verbatim>\<open>dt.timedelta(minutes=int(duration_hrs * 60))\<close>: \<^verbatim>\<open>int\<close> truncates towards zero. The
  duration in hours is a rational; on the half-hour multiples the float product is exact.
\<close>

definition py_trunc :: "rat \<Rightarrow> int" where
  "py_trunc x = (if 0 \<le> x then \<lfloor>x\<rfloor> else \<lceil>x\<rceil>)"

definition duration_minutes :: "rat \<Rightarrow> int" where
  "duration_minutes duration_hrs = py_trunc (duration_hrs * 60)"

section \<open>Records of the three collections\<close>

text \<open>
  The rows are JSON objects; each is a record of the keys the engine reads or writes
  (prefixed, since field names are global). A key read with \<^verbatim>\<open>.get\<close> is optional.
\<close>

record worker =
  w_username :: string
  w_name :: "string option"
  w_city :: "string option"
  w_daily_start :: "string option"
  w_daily_end :: "string option"

record user =
  u_username :: string
  u_email :: "string option"

record booking =
  b_id :: string
  b_user :: string
  b_worker :: string
  b_date :: string
  b_start :: string
  b_end :: string
  b_created_at :: string
  b_status :: string

record account =
  a_username :: string
  a_email :: string
  a_role :: string
  a_pwd_salt :: string
  a_pwd_hash :: string
  a_created_at :: string

section \<open>The availability engine\<close>

definition hm_time :: "string \<Rightarrow> error + time" where
  "hm_time s = (case parse_hm s of Inl e \<Rightarrow> Inl e | Inr (h, m) \<Rightarrow> dt_time h m)"

definition worker_daily_range :: "worker \<Rightarrow> error + (time \<times> time)" where
  "worker_daily_range w =
     (let start = (case w_daily_start w of None \<Rightarrow> ''09:00'' | Some s \<Rightarrow> s);
          end = (case w_daily_end w of None \<Rightarrow> ''18:00'' | Some s \<Rightarrow> s)
      in case parse_hm start of
           Inl e \<Rightarrow> Inl e
         | Inr (s_h, s_m) \<Rightarrow>
             (case parse_hm end of
                Inl e \<Rightarrow> Inl e
              | Inr (e_h, e_m) \<Rightarrow>
                  (case dt_time s_h s_m of
                     Inl e \<Rightarrow> Inl e
                   | Inr start_t \<Rightarrow>
                       (case dt_time e_h e_m of
                          Inl e \<Rightarrow> Inl e
                        | Inr end_t \<Rightarrow> Inr (start_t, end_t)))))"

text \<open>The \<^verbatim>\<open>while\<close> loop of \<^verbatim>\<open>generate_slots\<close>.\<close>

function slots_loop :: "datetime \<Rightarrow> datetime \<Rightarrow> time list \<Rightarrow> time list" where
  "slots_loop cur_dt end_dt slots =
     (if cur_dt \<le> end_dt - HALF_HOUR
      then slots_loop (cur_dt + HALF_HOUR) end_dt (slots @ [time_of cur_dt])
      else slots)"
  by pat_completeness auto
termination
  by (relation "measure (\<lambda>(c, e, s). nat (e - c))") (auto simp: HALF_HOUR_def)

declare slots_loop.simps [simp del]

definition generate_slots :: "worker \<Rightarrow> date \<Rightarrow> error + time list" where
  "generate_slots w d =
     (case worker_daily_range w of
        Inl e \<Rightarrow> Inl e
      | Inr (start_t, end_t) \<Rightarrow> Inr (slots_loop (combine d start_t) (combine d end_t) []))"

definition is_overlap :: "time \<Rightarrow> time \<Rightarrow> time \<Rightarrow> time \<Rightarrow> bool" where
  "is_overlap s1 e1 s2 e2 = (max s1 s2 < min e1 e2)"

text \<open>
  \<^verbatim>\<open>worker_booked_spans\<close>: the loop over the rows of the bookings table, here the argument
  \<open>rows\<close> (what \<^verbatim>\<open>load_bookings\<close> returns).
\<close>

fun spans_loop :: "string \<Rightarrow> string \<Rightarrow> booking list \<Rightarrow> (time \<times> time) list \<Rightarrow> error + (time \<times> time) list" where
  "spans_loop worker_username day [] spans = Inr spans"
| "spans_loop worker_username day (b # bs) spans =
     (if lower (b_worker b) = lower worker_username \<and> b_date b = day \<and> b_status b \<noteq> ''cancelled''
      then (case parse_hm (b_start b) of
              Inl e \<Rightarrow> Inl e
            | Inr (sh, sm) \<Rightarrow>
                (case parse_hm (b_end b) of
                   Inl e \<Rightarrow> Inl e
                 | Inr (eh, em) \<Rightarrow>
                     (case dt_time sh sm of
                        Inl e \<Rightarrow> Inl e
                      | Inr s \<Rightarrow>
                          (case dt_time eh em of
                             Inl e \<Rightarrow> Inl e
                           | Inr e \<Rightarrow> spans_loop worker_username day bs (spans @ [(s, e)])))))
      else spans_loop worker_username day bs spans)"

definition worker_booked_spans :: "string \<Rightarrow> date \<Rightarrow> booking list \<Rightarrow> error + (time \<times> time) list" where
  "worker_booked_spans worker_username d rows = spans_loop worker_username (isoformat d) rows []"

text \<open>
  What the booked spans of a worker handle and a date are meant to be: the stored times, read
  back, of the rows whose worker equals the handle up to case, whose date is the date in ISO
  form, and whose status is not \<^verbatim>\<open>cancelled\<close>.
\<close>

definition stored_span :: "booking \<Rightarrow> (time \<times> time) option" where
  "stored_span b =
     (case hm_time (b_start b) of
        Inl e \<Rightarrow> None
      | Inr s \<Rightarrow> (case hm_time (b_end b) of Inl e \<Rightarrow> None | Inr e \<Rightarrow> Some (s, e)))"

definition occupies :: "string \<Rightarrow> date \<Rightarrow> booking \<Rightarrow> bool" where
  "occupies handle d b =
     (eq_ascii_case (b_worker b) handle \<and> b_date b = isoformat d \<and> b_status b \<noteq> ''cancelled'')"

text \<open>The \<^verbatim>\<open>for\<close> loop of \<^verbatim>\<open>available_start_slots\<close>.\<close>

fun avail_loop ::
  "date \<Rightarrow> int \<Rightarrow> time \<Rightarrow> time \<Rightarrow> (time \<times> time) list \<Rightarrow> time list \<Rightarrow> time list \<Rightarrow> time list" where
  "avail_loop d dur day_start day_end spans [] avail = avail"
| "avail_loop d dur day_start day_end spans (t # slots) avail =
     (let start_dt = combine d t;
          end_dt = start_dt + dur;
          st_t = time_of start_dt;
          en_t = time_of end_dt
      in if st_t < day_start \<or> en_t > day_end
         then avail_loop d dur day_start day_end spans slots avail
         else if \<not> list_ex (\<lambda>(s, e). is_overlap st_t en_t s e) spans
         then avail_loop d dur day_start day_end spans slots (avail @ [t])
         else avail_loop d dur day_start day_end spans slots avail)"

definition available_start_slots :: "worker \<Rightarrow> date \<Rightarrow> rat \<Rightarrow> booking list \<Rightarrow> error + time list" where
  "available_start_slots w d duration_hrs rows =
     (let dur = duration_minutes duration_hrs
      in case generate_slots w d of
           Inl e \<Rightarrow> Inl e
         | Inr slots \<Rightarrow>
             (case worker_booked_spans (w_username w) d rows of
                Inl e \<Rightarrow> Inl e
              | Inr spans \<Rightarrow>
                  (case worker_daily_range w of
                     Inl e \<Rightarrow> Inl e
                   | Inr (day_start, day_end) \<Rightarrow>
                       Inr (avail_loop d dur day_start day_end spans slots []))))"

section \<open>The booking transaction\<close>

text \<open>
  What \<^verbatim>\<open>create_booking\<close> takes from outside the program is an argument: the UTC time
  stamp of the booking id, the local time stamp of \<^verbatim>\<open>now_iso\<close>, the \<^verbatim>\<open>[email]\<close> secrets,
  and whether any statement of the \<^verbatim>\<open>try\<close> block around the SMTP session raises.
\<close>

record email_cfg =
  e_host :: "string option"
  e_username :: "string option"
  e_password :: "string option"
  e_sender_email :: "string option"

record env =
  utc_stamp :: string
  now_stamp :: string
  EMAIL :: email_cfg
  smtp_raises :: bool

text \<open>
  The storage collaborator is the table itself: \<^verbatim>\<open>load_bookings\<close> reads the rows,
  \<^verbatim>\<open>save_table\<close> replaces them, one caller at a time; a failing HTTP request
  (\<^verbatim>\<open>RuntimeError\<close>) is outside the model.
  The bookings table and what the call did to the outside, in order: a \<open>PutBookings\<close> for
  \<^verbatim>\<open>save_table(DATA_BOOKINGS, ...)\<close> with its commit message, a \<open>Notify\<close> for the \<^verbatim>\<open>try\<close>
  block (recipient, subject, body, and whether the mail was sent).
\<close>

datatype event =
  PutBookings "booking list" string
| Notify string string string bool

record world =
  bookings :: "booking list"
  events :: "event list"

definition truthy :: "string option \<Rightarrow> bool" where
  "truthy x = (case x of None \<Rightarrow> False | Some s \<Rightarrow> s \<noteq> [])"

text \<open>
  The \<^verbatim>\<open>try\<close> block: \<^verbatim>\<open>sent\<close> becomes true only if nothing raises and host, username,
  password and sender address are all set; \<^verbatim>\<open>sender_email\<close> defaults to the username.
\<close>

definition smtp_send :: "env \<Rightarrow> bool" where
  "smtp_send en =
     (let host = e_host (EMAIL en);
          username = e_username (EMAIL en);
          password = e_password (EMAIL en);
          sender_email = (case e_sender_email (EMAIL en) of None \<Rightarrow> username | Some s \<Rightarrow> Some s)
      in if smtp_raises en then False
         else if truthy host \<and> truthy username \<and> truthy password \<and> truthy sender_email then True
         else False)"

definition display_name :: "worker \<Rightarrow> string" where
  "display_name w = (case w_name w of None \<Rightarrow> w_username w | Some n \<Rightarrow> n)"

definition mail_subject :: "worker \<Rightarrow> booking \<Rightarrow> string" where
  "mail_subject w row =
     ''Booking Confirmed: '' @ display_name w @ '' on '' @ b_date row @ '' '' @
     b_start row @ ''-'' @ b_end row"

definition mail_body :: "user \<Rightarrow> worker \<Rightarrow> booking \<Rightarrow> string" where
  "mail_body u w row =
     ''Hello '' @ u_username u @ '',\<newline>\<newline>'' @
     ''Your booking is confirmed.\<newline>\<newline>'' @
     ''Worker: '' @ display_name w @ ''\<newline>'' @
     ''Date:   '' @ b_date row @ ''\<newline>'' @
     ''Time:   '' @ b_start row @ '' - '' @ b_end row @ ''\<newline>'' @
     ''City:   '' @ (case w_city w of None \<Rightarrow> [] | Some c \<Rightarrow> c) @ ''\<newline>\<newline>'' @
     ''Booking ID: '' @ b_id row @ ''\<newline>\<newline>'' @
     ''Thanks for using Maid Services!''"

definition create_booking ::
  "env \<Rightarrow> world \<Rightarrow> user \<Rightarrow> worker \<Rightarrow> date \<Rightarrow> time \<Rightarrow> rat \<Rightarrow> error + ((bool \<times> string) \<times> world)" where
  "create_booking en wd u w d start duration_hrs =
     (let dur = duration_minutes duration_hrs;
          end_dt = combine d start + dur;
          end_t = time_of end_dt
      in case available_start_slots w d duration_hrs (bookings wd) of
           Inl e \<Rightarrow> Inl e
         | Inr avail \<Rightarrow>
             if start \<notin> set avail
             then Inr ((False, ''Selected slot is no longer available.''), wd)
             else
               (let booking_id = ''bk_'' @ utc_stamp en;
                    row = \<lparr>b_id = booking_id, b_user = u_username u, b_worker = w_username w,
                           b_date = isoformat d, b_start = strftime_HM start,
                           b_end = strftime_HM end_t, b_created_at = now_stamp en,
                           b_status = ''confirmed''\<rparr>;
                    rows = bookings wd @ [row];
                    wd1 = wd\<lparr>bookings := rows,
                             events := events wd @ [PutBookings rows (''Add booking '' @ booking_id)]\<rparr>;
                    subject = mail_subject w row;
                    body = mail_body u w row;
                    sent = (if truthy (u_email u) then smtp_send en else False);
                    wd2 = (case u_email u of
                             None \<Rightarrow> wd1
                           | Some addr \<Rightarrow>
                               if addr = [] then wd1
                               else wd1\<lparr>events := events wd1 @ [Notify addr subject body sent]\<rparr>);
                    msg = ''Booking created successfully.'' @
                          (if \<not> sent then '' (Email not sent; check SMTP settings in secrets.toml.)''
                           else [])
                in Inr ((True, msg), wd2)))"

text \<open>
  The row a successful call is meant to append: the caller's request, the end time as
  \<^verbatim>\<open>(start + duration).time()\<close>, and the status \<^verbatim>\<open>confirmed\<close>.
\<close>

definition confirmed_row :: "env \<Rightarrow> user \<Rightarrow> worker \<Rightarrow> date \<Rightarrow> time \<Rightarrow> rat \<Rightarrow> booking" where
  "confirmed_row en u w d start duration_hrs =
     \<lparr>b_id = ''bk_'' @ utc_stamp en, b_user = u_username u, b_worker = w_username w,
      b_date = isoformat d, b_start = strftime_HM start,
      b_end = strftime_HM (time_of (combine d start + duration_minutes duration_hrs)),
      b_created_at = now_stamp en, b_status = ''confirmed''\<rparr>"

text \<open>
  A caller that issues booking requests one after the other. Only a call that returns
  success changes the table; a call that raises or returns failure leaves it as it was.
\<close>

record request =
  r_env :: env
  r_user :: user
  r_worker :: worker
  r_date :: date
  r_start :: time
  r_duration_hrs :: rat

fun book_all :: "request list \<Rightarrow> world \<Rightarrow> world" where
  "book_all [] wd = wd"
| "book_all (r # rs) wd =
     (case create_booking (r_env r) wd (r_user r) (r_worker r) (r_date r) (r_start r)
             (r_duration_hrs r) of
        Inl e \<Rightarrow> book_all rs wd
      | Inr ((ok, msg), wd') \<Rightarrow> if ok then book_all rs wd' else book_all rs wd)"

text \<open>
  No double booking, on the rows as they are stored: two different rows of the same worker
  (up to case) and date, neither cancelled, hold times that read back as two time-of-day
  intervals \<open>[start, end)\<close> without a common point.
\<close>

definition disjoint_spans :: "booking \<Rightarrow> booking \<Rightarrow> bool" where
  "disjoint_spans x y =
     (case stored_span x of
        None \<Rightarrow> False
      | Some (s1, e1) \<Rightarrow>
          (case stored_span y of
             None \<Rightarrow> False
           | Some (s2, e2) \<Rightarrow> {s1..<e1} \<inter> {s2..<e2} = {}))"

definition same_calendar :: "booking \<Rightarrow> booking \<Rightarrow> bool" where
  "same_calendar x y =
     (eq_ascii_case (b_worker x) (b_worker y) \<and> b_date x = b_date y \<and>
      b_status x \<noteq> ''cancelled'' \<and> b_status y \<noteq> ''cancelled'')"

definition no_double_booking :: "booking list \<Rightarrow> bool" where
  "no_double_booking rows =
     (\<forall>i < length rows. \<forall>j < length rows.
        i \<noteq> j \<and> same_calendar (rows ! i) (rows ! j) \<longrightarrow> disjoint_spans (rows ! i) (rows ! j))"

text \<open>Every stored row holds times that read back.\<close>

definition readable :: "booking list \<Rightarrow> bool" where
  "readable rows = (\<forall>b \<in> set rows. stored_span b \<noteq> None)"

section \<open>Accounts\<close>

text \<open>
  \<^verbatim>\<open>register_user\<close> on the rows of the users table. \<open>hash_password\<close> stands for the salted
  PBKDF2 hash under the salt drawn in this call, \<open>now\<close> for the clock; the result is the
  returned pair and the rows of the table afterwards.
\<close>

definition register_user ::
  "(string \<Rightarrow> string \<times> string) \<Rightarrow> string \<Rightarrow> account list \<Rightarrow>
   string \<Rightarrow> string \<Rightarrow> string \<Rightarrow> string \<Rightarrow> (bool \<times> string) \<times> account list" where
  "register_user hash_password now users username email password role =
     (if list_ex (\<lambda>u. lower (a_username u) = lower username) users
      then ((False, ''Username already exists.''), users)
      else
        (let (salt_b64, hash_b64) = hash_password password
         in ((True, ''Account created.''),
             users @ [\<lparr>a_username = username, a_email = email, a_role = role,
                       a_pwd_salt = salt_b64, a_pwd_hash = hash_b64, a_created_at = now\<rparr>])))"

section \<open>Sample data\<close>

text \<open>A worker with the window 09:00 to 10:00, a customer, a date, an environment whose SMTP
  session fails, and the empty bookings table.\<close>

definition sample_env :: env where
  "sample_env = \<lparr>utc_stamp = ''20250309101500000000'', now_stamp = ''2025-03-09T15:45:00+05:30'',
     EMAIL = \<lparr>e_host = Some ''smtp.example.org'', e_username = Some ''bot'',
               e_password = Some ''pw'', e_sender_email = None\<rparr>,
     smtp_raises = True\<rparr>"

definition ravi :: user where
  "ravi = \<lparr>u_username = ''ravi'', u_email = Some ''ravi@example.org''\<rparr>"

definition asha :: worker where
  "asha = \<lparr>w_username = ''asha'', w_name = None, w_city = None,
            w_daily_start = Some ''09:00'', w_daily_end = Some ''10:00''\<rparr>"

definition march9 :: date where
  "march9 = \<lparr>d_year = 2025, d_month = 3, d_day = 9\<rparr>"

definition no_bookings :: world where
  "no_bookings = \<lparr>bookings = [], events = []\<rparr>"

text \<open>
  The same worker with the window 18:00 to 20:00, a second customer, and two requests for
  six hours from 18:00 on the same date.
\<close>

definition evening_asha :: worker where
  "evening_asha = asha\<lparr>w_daily_start := Some ''18:00'', w_daily_end := Some ''20:00''\<rparr>"

definition meena :: user where
  "meena = \<lparr>u_username = ''meena'', u_email = None\<rparr>"

definition late_request :: request where
  "late_request = \<lparr>r_env = sample_env, r_user = ravi, r_worker = evening_asha, r_date = march9,
     r_start = 1080, r_duration_hrs = 6\<rparr>"

definition late_request_again :: request where
  "late_request_again = \<lparr>r_env = sample_env\<lparr>utc_stamp := ''20250309101600000000''\<rparr>,
     r_user = meena, r_worker = evening_asha, r_date = march9,
     r_start = 1080, r_duration_hrs = 6\<rparr>"

section \<open>Theorems\<close>

subsection \<open>Overlap test\<close>

lemma is_overlap_iff_common_point:
  "is_overlap s1 e1 s2 e2 \<longleftrightarrow> {s1..<e1} \<inter> {s2..<e2} \<noteq> {}"
proof
  assume "is_overlap s1 e1 s2 e2"
  then have "max s1 s2 \<in> {s1..<e1} \<inter> {s2..<e2}"
    by (simp add: is_overlap_def)
  then show "{s1..<e1} \<inter> {s2..<e2} \<noteq> {}" by blast
next
  assume "{s1..<e1} \<inter> {s2..<e2} \<noteq> {}"
  then obtain t where "t \<in> {s1..<e1} \<inter> {s2..<e2}" by blast
  then have "s1 \<le> t" "t < e1" "s2 \<le> t" "t < e2" by simp_all
  then show "is_overlap s1 e1 s2 e2" by (simp add: is_overlap_def)
qed


text \<open>
  C3. For two intervals with \<open>s1 < e1\<close> and \<open>s2 < e2\<close>, \<open>is_overlap\<close> is true exactly when
  \<open>max s1 s2 < min e1 e2\<close>, which is exactly when the half-open intervals \<open>[s1, e1)\<close> and
  \<open>[s2, e2)\<close> share a point; intervals that only touch at an endpoint do not overlap.
\<close>

theorem is_overlap_half_open:
  assumes "s1 < e1" and "s2 < e2"
  shows "(is_overlap s1 e1 s2 e2 \<longleftrightarrow> max s1 s2 < min e1 e2) \<and>
         (is_overlap s1 e1 s2 e2 \<longleftrightarrow> {s1..<e1} \<inter> {s2..<e2} \<noteq> {}) \<and>
         (e1 = s2 \<or> e2 = s1 \<longrightarrow> \<not> is_overlap s1 e1 s2 e2)"
proof (intro conjI impI)
  show "is_overlap s1 e1 s2 e2 \<longleftrightarrow> max s1 s2 < min e1 e2"
    by (simp add: is_overlap_def)
  show "is_overlap s1 e1 s2 e2 \<longleftrightarrow> {s1..<e1} \<inter> {s2..<e2} \<noteq> {}"
    by (rule is_overlap_iff_common_point)
  assume "e1 = s2 \<or> e2 = s1"
  then show "\<not> is_overlap s1 e1 s2 e2"
    using assms by (auto simp: is_overlap_def)
qed

theorem is_overlap_half_open_witness:
  "(600::nat) < 660 \<and> (660::nat) < 720 \<and> (660::nat) = 660 \<and> \<not> is_overlap 600 660 660 720 \<and>
   (is_overlap 600 660 630 720 \<longleftrightarrow> max (600::nat) 630 < min 660 720)"
proof -
  have a: "(600::nat) < 660" and b: "(660::nat) < 720" and c: "(630::nat) < 720" by simp_all
  show ?thesis
    using is_overlap_half_open [OF a b] is_overlap_half_open [OF a c] by simp
qed

subsection \<open>The time grid\<close>

lemma dt_time_bound: "dt_time h m = Inr t \<Longrightarrow> t < 1440"
  by (auto simp: dt_time_def split: if_splits)

lemma worker_daily_range_bound:
  assumes "worker_daily_range w = Inr (S, E)"
  shows "S < 1440 \<and> E < 1440"
  using assms
  by (auto simp: worker_daily_range_def Let_def split: sum.splits prod.splits dest: dt_time_bound)

lemma upt_Suc_shift: "[0..<Suc m] = 0 # map Suc [0..<m]"
  by (simp add: upt_conv_Cons map_Suc_upt del: upt_Suc)

lemma slots_loop_eq:
  "0 \<le> c \<Longrightarrow> e \<le> 1440 \<Longrightarrow>
   slots_loop c e acc = acc @ map (\<lambda>k. nat (c + 30 * int k)) [0..<nat ((e - c) div 30)]"
proof (induction c e acc rule: slots_loop.induct)
  case (1 cur_dt end_dt slots)
  show ?case
  proof (cases "cur_dt \<le> end_dt - HALF_HOUR")
    case True
    then have le: "cur_dt + 30 \<le> end_dt" by (simp add: HALF_HOUR_def)
    have t: "time_of cur_dt = nat cur_dt"
      using "1.prems" le by (simp add: time_of_def)
    have n: "nat ((end_dt - cur_dt) div 30) = Suc (nat ((end_dt - (cur_dt + 30)) div 30))"
      using le by (simp add: nat_add_distrib div_pos_pos_trivial)
    have ih: "slots_loop (cur_dt + HALF_HOUR) end_dt (slots @ [time_of cur_dt]) =
        (slots @ [time_of cur_dt]) @
        map (\<lambda>k. nat (cur_dt + HALF_HOUR + 30 * int k))
          [0..<nat ((end_dt - (cur_dt + HALF_HOUR)) div 30)]"
      using "1.IH"[OF True] "1.prems" by (simp add: HALF_HOUR_def)
    have "slots_loop cur_dt end_dt slots =
        slots_loop (cur_dt + HALF_HOUR) end_dt (slots @ [time_of cur_dt])"
      using True by (subst slots_loop.simps) simp
    also note ih
    finally show ?thesis
      unfolding n upt_Suc_shift by (simp add: t HALF_HOUR_def comp_def algebra_simps)
  next
    case False
    then have "(end_dt - cur_dt) div 30 \<le> 0" by (simp add: HALF_HOUR_def)
    moreover have "slots_loop cur_dt end_dt slots = slots"
      using False by (subst slots_loop.simps) simp
    ultimately show ?thesis by simp
  qed
qed

lemma generate_slots_eq:
  assumes "worker_daily_range w = Inr (S, E)"
  shows "generate_slots w d = Inr (map (\<lambda>k. S + 30 * k) [0..<(E - S) div 30])"
proof -
  have E: "int E \<le> 1440" using worker_daily_range_bound [OF assms] by simp
  have n: "nat ((int E - int S) div 30) = (E - S) div 30"
  proof (cases "S \<le> E")
    case True
    then have "int E - int S = int (E - S)" by simp
    then show ?thesis by (simp add: zdiv_int [symmetric] del: of_nat_diff)
  next
    case False
    then have "(int E - int S) div 30 < 0" by (simp add: div_neg_pos_less0)
    with False show ?thesis by simp
  qed
  have m: "(\<lambda>k. nat (int S + 30 * int k)) = (\<lambda>k. S + 30 * k)"
    by (rule ext) (simp add: nat_add_distrib nat_mult_distrib)
  show ?thesis
    using slots_loop_eq [of "int S" "int E" "[]"] E
    by (simp add: generate_slots_def assms combine_def n m)
qed



lemma generate_slots_member:
  assumes r: "worker_daily_range w = Inr (S, E)"
    and g: "generate_slots w d = Inr slots" and t: "t \<in> set slots"
  shows "S \<le> t \<and> t + 30 \<le> E \<and> t < 1440"
proof -
  from g generate_slots_eq [OF r, of d]
  have "slots = map (\<lambda>k. S + 30 * k) [0..<(E - S) div 30]" by simp
  with t obtain k where k: "k < (E - S) div 30" and tk: "t = S + 30 * k" by auto
  have "30 * ((E - S) div 30) \<le> E - S" by simp
  with k have "30 * k + 30 \<le> E - S" by linarith
  moreover have "E < 1440" using worker_daily_range_bound [OF r] by simp
  ultimately show ?thesis using tk by linarith
qed

subsection \<open>Availability\<close>

lemma avail_loop_eq:
  "avail_loop d dur day_start day_end spans slots acc =
     acc @ filter (\<lambda>t. \<not> (time_of (combine d t) < day_start \<or> day_end < time_of (combine d t + dur)) \<and>
                       \<not> list_ex (\<lambda>(s, e). is_overlap (time_of (combine d t)) (time_of (combine d t + dur)) s e) spans) slots"
proof (induction slots arbitrary: acc)
  case Nil
  show ?case by simp
next
  case (Cons t slots)
  show ?case
    unfolding avail_loop.simps Let_def Cons.IH by (simp only: filter.simps append_assoc append_Cons append_Nil split: if_split) blast
qed

lemma time_of_small: "0 \<le> x \<Longrightarrow> x < 1440 \<Longrightarrow> time_of x = nat x"
  by (simp add: time_of_def)

lemma time_of_combine: "t < 1440 \<Longrightarrow> time_of (combine d t) = t"
  by (simp add: time_of_def combine_def)

lemma time_of_bound: "time_of x < 1440"
  by (simp add: time_of_def nat_less_iff)

lemma available_start_slots_unfold:
  assumes r: "worker_daily_range w = Inr (S, E)"
    and a: "available_start_slots w d duration_hrs rows = Inr avail"
  shows "\<exists>slots spans. generate_slots w d = Inr slots \<and>
           worker_booked_spans (w_username w) d rows = Inr spans \<and>
           avail = filter (\<lambda>t. \<not> (time_of (combine d t) < S \<or>
                                 E < time_of (combine d t + duration_minutes duration_hrs)) \<and>
                       \<not> list_ex (\<lambda>(s, e). is_overlap (time_of (combine d t))
                                    (time_of (combine d t + duration_minutes duration_hrs)) s e) spans)
                     slots"
  using a r
  by (auto simp: available_start_slots_def Let_def avail_loop_eq split: sum.splits)

text \<open>
  Where the booking ends on the day it starts, an offered start time lies in the window
  together with its whole duration.
\<close>

lemma available_slot_fits_same_day:
  assumes r: "worker_daily_range w = Inr (S, E)"
    and a: "available_start_slots w d duration_hrs rows = Inr avail"
    and t: "t \<in> set avail"
    and pos: "0 \<le> duration_minutes duration_hrs"
    and day: "int t + duration_minutes duration_hrs < 1440"
  shows "S \<le> t \<and> int t + duration_minutes duration_hrs \<le> int E"
proof -
  from available_start_slots_unfold [OF r a] obtain slots spans where
    g: "generate_slots w d = Inr slots" and
    av: "avail = filter (\<lambda>t. \<not> (time_of (combine d t) < S \<or>
                                 E < time_of (combine d t + duration_minutes duration_hrs)) \<and>
                       \<not> list_ex (\<lambda>(s, e). is_overlap (time_of (combine d t))
                                    (time_of (combine d t + duration_minutes duration_hrs)) s e) spans)
                     slots" by blast
  from t av have ts: "t \<in> set slots"
    and ok: "\<not> (time_of (combine d t) < S \<or> E < time_of (combine d t + duration_minutes duration_hrs))"
    by simp_all
  have "S \<le> t" using generate_slots_member [OF r g ts] by simp
  moreover have "time_of (combine d t + duration_minutes duration_hrs) =
      nat (int t + duration_minutes duration_hrs)"
    using pos day by (simp add: combine_def time_of_small)
  ultimately have "S \<le> t" and "nat (int t + duration_minutes duration_hrs) \<le> E"
    using ok by simp_all
  then show ?thesis using pos by linarith
qed

text \<open>
  C1. The availability result is claimed to hold only start times \<open>t\<close> with \<open>S \<le> t\<close> and
  \<open>t + D \<le> E\<close>. For the window 18:00 to 20:00 and a duration of 6 hours no start time
  fits, yet all four grid times are returned: each end time passes midnight, \<^verbatim>\<open>.time()\<close>
  drops the day, and the wrapped end (00:00 to 01:30) is not after 20:00.
\<close>

theorem available_start_slots_past_midnight:
  "worker_daily_range \<lparr>w_username = ''asha'', w_name = None, w_city = None,
      w_daily_start = Some ''18:00'', w_daily_end = Some ''20:00''\<rparr> = Inr (1080, 1200) \<and>
   duration_minutes 6 = 360 \<and>
   available_start_slots \<lparr>w_username = ''asha'', w_name = None, w_city = None,
      w_daily_start = Some ''18:00'', w_daily_end = Some ''20:00''\<rparr>
      \<lparr>d_year = 2025, d_month = 3, d_day = 9\<rparr> 6 [] = Inr [1080, 1110, 1140, 1170] \<and>
   \<not> ((1080::int) + 360 \<le> 1200)"
  by code_simp

subsection \<open>The nine-to-six scenario\<close>

lemma hm_0900: "parse_hm ''09:00'' = Inr (9, 0)"
  by code_simp

lemma hm_1800: "parse_hm ''18:00'' = Inr (18, 0)"
  by code_simp

lemma grid_0900_1800:
  "map (\<lambda>k. 540 + 30 * k) [0..<(1080 - 540) div 30] =
   [540::nat, 570, 600, 630, 660, 690, 720, 750, 780, 810, 840, 870, 900, 930, 960, 990, 1020, 1050]"
  by code_simp

lemma strftime_0900: "strftime_HM 540 = ''09:00''"
  by code_simp

lemma strftime_1630: "strftime_HM 990 = ''16:30''"
  by code_simp

lemma duration_90: "duration_minutes (3 / 2) = 90"
  by (simp add: duration_minutes_def py_trunc_def)

text \<open>
  C8. For a worker with the window 09:00 to 18:00, no booked spans and a duration of 1.5
  hours, the availability result is not empty, starts with 09:00 and ends with 16:30.
\<close>

theorem scenario_nine_to_six:
  assumes s: "w_daily_start w = Some ''09:00''" and e: "w_daily_end w = Some ''18:00''"
    and free: "worker_booked_spans (w_username w) d rows = Inr []"
  shows "\<exists>avail. available_start_slots w d (3 / 2) rows = Inr avail \<and> avail \<noteq> [] \<and>
           strftime_HM (hd avail) = ''09:00'' \<and> strftime_HM (last avail) = ''16:30''"
proof -
  have r: "worker_daily_range w = Inr (540, 1080)"
    by (simp add: worker_daily_range_def s e hm_0900 hm_1800 dt_time_def)
  have g: "generate_slots w d =
      Inr [540, 570, 600, 630, 660, 690, 720, 750, 780, 810, 840, 870, 900, 930, 960, 990, 1020, 1050]"
    using generate_slots_eq [OF r, of d] by (simp only: grid_0900_1800)
  have a: "available_start_slots w d (3 / 2) rows =
      Inr [540, 570, 600, 630, 660, 690, 720, 750, 780, 810, 840, 870, 900, 930, 960, 990]"
    by (simp add: available_start_slots_def g free r duration_90 avail_loop_eq combine_def time_of_def)
  show ?thesis
    unfolding a by (simp add: strftime_0900 strftime_1630)
qed

theorem scenario_nine_to_six_witness:
  "\<exists>avail. available_start_slots \<lparr>w_username = ''asha'', w_name = None, w_city = None,
      w_daily_start = Some ''09:00'', w_daily_end = Some ''18:00''\<rparr>
      \<lparr>d_year = 2025, d_month = 3, d_day = 9\<rparr> (3 / 2) [] = Inr avail \<and> avail \<noteq> [] \<and>
           strftime_HM (hd avail) = ''09:00'' \<and> strftime_HM (last avail) = ''16:30''"
proof -
  have "worker_booked_spans ''asha'' \<lparr>d_year = 2025, d_month = 3, d_day = 9\<rparr> [] = Inr []"
    by (simp add: worker_booked_spans_def)
  then show ?thesis
    using scenario_nine_to_six [of "\<lparr>w_username = ''asha'', w_name = None, w_city = None,
      w_daily_start = Some ''09:00'', w_daily_end = Some ''18:00''\<rparr>"
      "\<lparr>d_year = 2025, d_month = 3, d_day = 9\<rparr>" "[]"]
    by simp
qed

subsection \<open>Case-insensitive comparison\<close>

lemma of_char_lower_char:
  "(of_char (lower_char c) :: nat) =
     (if 65 \<le> (of_char c :: nat) \<and> (of_char c :: nat) \<le> 90 then of_char c + 32 else of_char c)"
  by (simp add: lower_char_def Let_def)

lemma lower_char_eq_iff: "lower_char c = lower_char d \<longleftrightarrow> same_letter c d"
proof -
  have key: "((if 65 \<le> m \<and> m \<le> 90 then m + 32 else m) = (if 65 \<le> n \<and> n \<le> 90 then n + 32 else n)) \<longleftrightarrow>
      (m = n \<or> (65 \<le> m \<and> m \<le> 90 \<and> n = m + 32) \<or> (65 \<le> n \<and> n \<le> 90 \<and> m = n + 32))"
    for m n :: nat
    by auto
  have "lower_char c = lower_char d \<longleftrightarrow>
      (of_char (lower_char c) :: nat) = of_char (lower_char d)"
    by simp
  also have "\<dots> \<longleftrightarrow> ((of_char c :: nat) = of_char d \<or>
      (65 \<le> (of_char c :: nat) \<and> (of_char c :: nat) \<le> 90 \<and> (of_char d :: nat) = of_char c + 32) \<or>
      (65 \<le> (of_char d :: nat) \<and> (of_char d :: nat) \<le> 90 \<and> (of_char c :: nat) = of_char d + 32))"
    unfolding of_char_lower_char by (rule key)
  also have "\<dots> \<longleftrightarrow> same_letter c d"
    by (simp add: same_letter_def Let_def)
  finally show ?thesis .
qed

lemma lower_eq_iff: "lower a = lower b \<longleftrightarrow> eq_ascii_case a b"
  unfolding lower_def eq_ascii_case_def
proof (induction a arbitrary: b)
  case Nil
  show ?case by auto
next
  case (Cons c a)
  show ?case
    by (cases b) (simp_all add: Cons.IH lower_char_eq_iff)
qed

subsection \<open>Booked spans\<close>

lemma error_is_ValueError: "(e :: error) = ValueError"
  by (cases e) simp

lemma spans_loop_step:
  "spans_loop h day (b # bs) spans =
     (if lower (b_worker b) = lower h \<and> b_date b = day \<and> b_status b \<noteq> ''cancelled''
      then (case stored_span b of
              None \<Rightarrow> Inl ValueError
            | Some se \<Rightarrow> spans_loop h day bs (spans @ [se]))
      else spans_loop h day bs spans)"
  by (auto simp: stored_span_def hm_time_def error_is_ValueError [of "x" for x]
           split: sum.splits prod.splits)

lemma spans_loop_occupies:
  "spans_loop h (isoformat d) (b # bs) spans =
     (if occupies h d b
      then (case stored_span b of
              None \<Rightarrow> Inl ValueError
            | Some se \<Rightarrow> spans_loop h (isoformat d) bs (spans @ [se]))
      else spans_loop h (isoformat d) bs spans)"
  unfolding spans_loop_step occupies_def lower_eq_iff [symmetric] ..

lemma spans_loop_eq:
  assumes "\<forall>b \<in> set rows. occupies h d b \<longrightarrow> stored_span b \<noteq> None"
  shows "spans_loop h (isoformat d) rows spans =
           Inr (spans @ List.map_filter stored_span (filter (occupies h d) rows))"
  using assms
proof (induction rows arbitrary: spans)
  case Nil
  show ?case by (simp add: List.map_filter_simps)
next
  case (Cons b bs)
  have ih: "spans_loop h (isoformat d) bs acc =
      Inr (acc @ List.map_filter stored_span (filter (occupies h d) bs))" for acc
    using Cons.IH Cons.prems by simp
  show ?case
  proof (cases "occupies h d b")
    case True
    with Cons.prems obtain se where se: "stored_span b = Some se" by auto
    show ?thesis
      using True se by (simp add: spans_loop_occupies ih List.map_filter_simps del: spans_loop.simps)
  next
    case False
    then show ?thesis
      by (simp add: spans_loop_occupies ih del: spans_loop.simps)
  qed
qed

lemma spans_loop_raises:
  assumes "\<exists>b \<in> set rows. occupies h d b \<and> stored_span b = None"
  shows "spans_loop h (isoformat d) rows spans = Inl ValueError"
  using assms
proof (induction rows arbitrary: spans)
  case Nil
  then show ?case by simp
next
  case (Cons b bs)
  show ?case
  proof (cases "occupies h d b \<and> stored_span b = None")
    case True
    then show ?thesis by (simp add: spans_loop_occupies del: spans_loop.simps)
  next
    case False
    with Cons.prems have ex: "\<exists>b \<in> set bs. occupies h d b \<and> stored_span b = None" by auto
    show ?thesis
      using Cons.IH [OF ex]
      by (simp add: spans_loop_occupies del: spans_loop.simps split: option.splits)
  qed
qed



subsection \<open>The booking transaction\<close>



lemma create_booking_success:
  assumes "available_start_slots w d duration_hrs (bookings wd) = Inr avail"
    and "start \<in> set avail"
  shows "create_booking en wd u w d start duration_hrs =
     (let row = confirmed_row en u w d start duration_hrs;
          rows = bookings wd @ [row];
          sent = (truthy (u_email u) \<and> smtp_send en)
      in Inr ((True,
               if sent then ''Booking created successfully.''
               else ''Booking created successfully. (Email not sent; check SMTP settings in secrets.toml.)''),
              wd\<lparr>bookings := rows,
                 events := events wd @
                   PutBookings rows (''Add booking bk_'' @ utc_stamp en) #
                   (case u_email u of
                      None \<Rightarrow> []
                    | Some addr \<Rightarrow>
                        if addr = [] then []
                        else [Notify addr (mail_subject w row) (mail_body u w row) sent])\<rparr>))"
proof (cases "u_email u")
  case None
  then show ?thesis
    using assms by (simp add: create_booking_def Let_def confirmed_row_def truthy_def)
next
  case (Some addr)
  then show ?thesis
    using assms by (simp add: create_booking_def Let_def confirmed_row_def truthy_def)
qed





subsection \<open>Accounts\<close>

text \<open>
  C10. When the users table already holds a username equal to the requested one up to ASCII
  case, \<open>register_user\<close> returns failure with the message "Username already exists." and
  the table is unchanged.
\<close>

theorem register_user_duplicate:
  assumes "\<exists>u \<in> set users. eq_ascii_case (a_username u) username"
  shows "register_user hash_password now users username email password role =
           ((False, ''Username already exists.''), users)"
proof -
  from assms have "list_ex (\<lambda>u. lower (a_username u) = lower username) users"
    by (simp add: list_ex_iff lower_eq_iff)
  then show ?thesis by (simp add: register_user_def)
qed

theorem register_user_duplicate_witness:
  "(\<exists>u \<in> set [\<lparr>a_username = ''Ravi'', a_email = ''ravi@example.org'', a_role = ''customer'',
                 a_pwd_salt = ''c2FsdA=='', a_pwd_hash = ''aGFzaA=='', a_created_at = ''t0''\<rparr>].
      eq_ascii_case (a_username u) ''rAVI'') \<and>
   register_user (\<lambda>p. (''c2FsdDI='', ''aGFzaDI='')) ''t1''
     [\<lparr>a_username = ''Ravi'', a_email = ''ravi@example.org'', a_role = ''customer'',
       a_pwd_salt = ''c2FsdA=='', a_pwd_hash = ''aGFzaA=='', a_created_at = ''t0''\<rparr>]
     ''rAVI'' ''other@example.org'' ''secret'' ''customer'' =
   ((False, ''Username already exists.''),
    [\<lparr>a_username = ''Ravi'', a_email = ''ravi@example.org'', a_role = ''customer'',
       a_pwd_salt = ''c2FsdA=='', a_pwd_hash = ''aGFzaA=='', a_created_at = ''t0''\<rparr>])"
proof -
  have h: "\<exists>u \<in> set [\<lparr>a_username = ''Ravi'', a_email = ''ravi@example.org'', a_role = ''customer'',
                 a_pwd_salt = ''c2FsdA=='', a_pwd_hash = ''aGFzaA=='', a_created_at = ''t0''\<rparr>].
      eq_ascii_case (a_username u) ''rAVI''"
    by code_simp
  show ?thesis
    using register_user_duplicate [OF h] h by blast
qed

subsection \<open>Stored times read back\<close>

lemma of_char_digit_char: "(of_char (digit_char k) :: nat) = 48 + k mod 10"
  by (simp add: digit_char_def)

lemma digit_char_neq [simp]:
  "digit_char k \<noteq> CHR '':''" "digit_char k \<noteq> CHR ''-''" "digit_char k \<noteq> CHR ''+''"
  "digit_char k \<noteq> CHR ''_''"
proof -
  have "(of_char (digit_char k) :: nat) \<noteq> of_char CHR '':''"
    "(of_char (digit_char k) :: nat) \<noteq> of_char CHR ''-''"
    "(of_char (digit_char k) :: nat) \<noteq> of_char CHR ''+''"
    "(of_char (digit_char k) :: nat) \<noteq> of_char CHR ''_''"
    unfolding of_char_digit_char by simp_all
  then show "digit_char k \<noteq> CHR '':''" "digit_char k \<noteq> CHR ''-''" "digit_char k \<noteq> CHR ''+''"
    "digit_char k \<noteq> CHR ''_''"
    by fastforce+
qed

lemma is_digit_digit_char [simp]: "is_digit (digit_char k)"
  by (simp add: is_digit_def of_char_digit_char)

lemma not_space_digit_char [simp]: "\<not> is_space (digit_char k)"
  by (simp add: is_space_def of_char_digit_char)

lemma digit_val_digit_char [simp]: "digit_val (digit_char k) = int (k mod 10)"
  by (simp add: digit_val_def of_char_digit_char)

lemma py_int_zfill2: "n < 100 \<Longrightarrow> py_int (zfill2 n) = Inr (int n)"
  by (simp add: py_int_def zfill2_def strip_def digits_value_def Let_def) presburger

lemma split_on_zfill2:
  "split_on CHR '':'' (zfill2 a @ '':'' @ zfill2 b) = [zfill2 a, zfill2 b]"
  by (simp add: zfill2_def)

lemma hm_time_strftime:
  assumes "t < 1440"
  shows "hm_time (strftime_HM t) = Inr t"
proof -
  have a: "t div 60 < 100" and b: "t mod 60 < 100" using assms by simp_all
  have "parse_hm (strftime_HM t) = Inr (int (t div 60), int (t mod 60))"
    unfolding parse_hm_def strftime_HM_def split_on_zfill2
    by (simp add: py_int_zfill2 [OF a] py_int_zfill2 [OF b])
  moreover have "dt_time (int (t div 60)) (int (t mod 60)) = Inr t"
  proof -
    have "t div 60 < 24" using assms by (simp add: less_mult_imp_div_less)
    moreover have "nat (60 * int (t div 60) + int (t mod 60)) = t"
      by (simp add: nat_add_distrib nat_mult_distrib)
    ultimately show ?thesis by (simp add: dt_time_def)
  qed
  ultimately show ?thesis by (simp add: hm_time_def)
qed

subsection \<open>No double booking\<close>

lemma eq_ascii_case_sym: "eq_ascii_case a b \<longleftrightarrow> eq_ascii_case b a"
  unfolding lower_eq_iff [symmetric] by auto

lemma eq_ascii_case_trans: "eq_ascii_case a b \<Longrightarrow> eq_ascii_case b c \<Longrightarrow> eq_ascii_case a c"
  unfolding lower_eq_iff [symmetric] by simp

lemma same_calendar_sym: "same_calendar x y \<longleftrightarrow> same_calendar y x"
  unfolding same_calendar_def using eq_ascii_case_sym [of "b_worker x" "b_worker y"] by auto

lemma disjoint_spans_sym: "disjoint_spans x y \<longleftrightarrow> disjoint_spans y x"
  by (auto simp: disjoint_spans_def split: option.splits)

lemma no_double_booking_snoc:
  assumes old: "no_double_booking rows"
    and new: "\<forall>x \<in> set rows. same_calendar x r \<longrightarrow> disjoint_spans x r"
  shows "no_double_booking (rows @ [r])"
  unfolding no_double_booking_def
proof (intro allI impI)
  fix i j
  assume i: "i < length (rows @ [r])" and j: "j < length (rows @ [r])"
    and h: "i \<noteq> j \<and> same_calendar ((rows @ [r]) ! i) ((rows @ [r]) ! j)"
  consider (old) "i < length rows" "j < length rows"
    | (right) "i < length rows" "j = length rows"
    | (left) "i = length rows" "j < length rows"
    using i j h by (simp add: less_Suc_eq) linarith
  then show "disjoint_spans ((rows @ [r]) ! i) ((rows @ [r]) ! j)"
  proof cases
    case old
    with h assms(1) show ?thesis
      by (simp add: no_double_booking_def nth_append)
  next
    case right
    with h new show ?thesis by (simp add: nth_append)
  next
    case left
    from left h have "same_calendar r (rows ! j)" by (simp add: nth_append)
    then have "same_calendar (rows ! j) r" by (simp add: same_calendar_sym)
    with new left have "disjoint_spans (rows ! j) r" by simp
    then show ?thesis using left by (simp add: nth_append disjoint_spans_sym)
  qed
qed

lemma stored_span_confirmed_row:
  assumes "start < 1440"
  shows "stored_span (confirmed_row en u w d start duration_hrs) =
           Some (start, time_of (combine d start + duration_minutes duration_hrs))"
  by (simp add: stored_span_def confirmed_row_def hm_time_strftime assms time_of_bound)

lemma available_start_slots_member:
  assumes a: "available_start_slots w d duration_hrs rows = Inr avail"
    and t: "t \<in> set avail"
  shows "t < 1440 \<and>
         (\<exists>spans. worker_booked_spans (w_username w) d rows = Inr spans \<and>
            (\<forall>(s, e) \<in> set spans.
               \<not> is_overlap t (time_of (combine d t + duration_minutes duration_hrs)) s e))"
proof -
  from a obtain S E where r: "worker_daily_range w = Inr (S, E)"
    by (auto simp: available_start_slots_def Let_def split: sum.splits)
  from available_start_slots_unfold [OF r a] obtain slots spans where
    g: "generate_slots w d = Inr slots" and
    sp: "worker_booked_spans (w_username w) d rows = Inr spans" and
    av: "avail = filter (\<lambda>t. \<not> (time_of (combine d t) < S \<or>
                                 E < time_of (combine d t + duration_minutes duration_hrs)) \<and>
                       \<not> list_ex (\<lambda>(s, e). is_overlap (time_of (combine d t))
                                    (time_of (combine d t + duration_minutes duration_hrs)) s e) spans)
                     slots" by blast
  from t av have ts: "t \<in> set slots"
    and free: "\<not> list_ex (\<lambda>(s, e). is_overlap (time_of (combine d t))
                                    (time_of (combine d t + duration_minutes duration_hrs)) s e) spans"
    by simp_all
  have lt: "t < 1440" using generate_slots_member [OF r g ts] by simp
  from free have "\<forall>(s, e) \<in> set spans.
      \<not> is_overlap t (time_of (combine d t + duration_minutes duration_hrs)) s e"
    by (auto simp: list_ex_iff time_of_combine [OF lt])
  with lt sp show ?thesis by blast
qed

lemma create_booking_keeps_invariant:
  assumes inv: "no_double_booking (bookings wd)" and rd: "readable (bookings wd)"
    and ok: "create_booking en wd u w d start duration_hrs = Inr ((True, msg), wd')"
  shows "no_double_booking (bookings wd') \<and> readable (bookings wd')"
proof -
  let ?rows = "bookings wd"
  let ?r = "confirmed_row en u w d start duration_hrs"
  let ?en = "time_of (combine d start + duration_minutes duration_hrs)"
  from ok obtain avail where a: "available_start_slots w d duration_hrs ?rows = Inr avail"
    by (auto simp: create_booking_def Let_def split: sum.splits)
  from ok a have m: "start \<in> set avail"
    by (auto simp: create_booking_def Let_def split: if_splits)
  from ok have rows': "bookings wd' = ?rows @ [?r]"
    unfolding create_booking_success [OF a m] Let_def by auto
  from available_start_slots_member [OF a m] obtain spans where
    lt: "start < 1440" and
    sp: "worker_booked_spans (w_username w) d ?rows = Inr spans" and
    free: "\<forall>(s, e) \<in> set spans. \<not> is_overlap start ?en s e" by blast
  have span_r: "stored_span ?r = Some (start, ?en)"
    by (rule stored_span_confirmed_row [OF lt])
  have all: "\<forall>b \<in> set ?rows. occupies (w_username w) d b \<longrightarrow> stored_span b \<noteq> None"
    using rd by (simp add: readable_def)
  have spans: "spans = List.map_filter stored_span (filter (occupies (w_username w) d) ?rows)"
    using spans_loop_eq [OF all, of "[]"] sp by (simp add: worker_booked_spans_def)
  have new: "\<forall>x \<in> set ?rows. same_calendar x ?r \<longrightarrow> disjoint_spans x ?r"
  proof (intro ballI impI)
    fix x assume x: "x \<in> set ?rows" and sc: "same_calendar x ?r"
    from sc have occ: "occupies (w_username w) d x"
      by (simp add: same_calendar_def occupies_def confirmed_row_def)
    from rd x obtain s e where se: "stored_span x = Some (s, e)"
      by (auto simp: readable_def)
    with x occ have "(s, e) \<in> set spans"
      unfolding spans by (auto simp: List.map_filter_def intro!: image_eqI [where x = x])
    with free have "\<not> is_overlap start ?en s e" by auto
    then have "{s..<e} \<inter> {start..<?en} = {}"
      using is_overlap_iff_common_point [of start ?en s e] by auto
    then show "disjoint_spans x ?r"
      by (simp add: disjoint_spans_def se span_r)
  qed
  have "no_double_booking (?rows @ [?r])"
    by (rule no_double_booking_snoc [OF inv new])
  moreover have "readable (?rows @ [?r])"
    using rd span_r by (simp add: readable_def)
  ultimately show ?thesis by (simp add: rows')
qed

lemma book_all_keeps_invariant:
  "no_double_booking (bookings wd) \<Longrightarrow> readable (bookings wd) \<Longrightarrow>
   no_double_booking (bookings (book_all reqs wd)) \<and> readable (bookings (book_all reqs wd))"
proof (induction reqs arbitrary: wd)
  case Nil
  then show ?case by simp
next
  case (Cons r rs)
  show ?case
  proof (cases "create_booking (r_env r) wd (r_user r) (r_worker r) (r_date r) (r_start r)
             (r_duration_hrs r)")
    case (Inl e)
    then show ?thesis using Cons by simp
  next
    case (Inr res)
    obtain ok msg wd' where res: "res = ((ok, msg), wd')" by (cases res) auto
    show ?thesis
    proof (cases ok)
      case True
      from Inr res True
      have c: "create_booking (r_env r) wd (r_user r) (r_worker r) (r_date r) (r_start r)
          (r_duration_hrs r) = Inr ((True, msg), wd')" by simp
      from create_booking_keeps_invariant [OF Cons.prems c]
      have "no_double_booking (bookings wd')" "readable (bookings wd')" by simp_all
      from Cons.IH [OF this] show ?thesis using Inr res True by simp
    next
      case False
      then show ?thesis using Cons Inr res by simp
    qed
  qed
qed

text \<open>
  On the times as stored, no two rows of one worker and date ever overlap: start from an
  empty table and let any sequence of requests run through \<open>create_booking\<close>; any two
  different rows with the same worker up to case and the same date, neither cancelled, hold
  times that read back as intervals of the day \<open>[start, end)\<close> without a common point.
  For bookings that end on the day they start the stored interval is the booked one. A
  booking that runs past midnight is stored with its end wrapped, and its stored interval
  is empty.
\<close>

lemma stored_spans_stay_disjoint:
  "no_double_booking (bookings (book_all reqs \<lparr>bookings = [], events = evs\<rparr>))"
  using book_all_keeps_invariant [of "\<lparr>bookings = [], events = evs\<rparr>" reqs]
  by (simp add: no_double_booking_def readable_def)

text \<open>
  C2. After any sequence of successful booking transactions no two bookings of one worker
  and date, neither cancelled, are meant to overlap. Two requests for the same six hours
  from 18:00, by two customers, both succeed: the first is stored as 18:00 to 00:00, and
  \<open>is_overlap\<close> of 18:00 to 00:00 with itself is false, so the second passes re-validation
  and the same slot is booked twice.
\<close>

theorem late_slot_booked_twice:
  "map (\<lambda>b. (b_user b, b_worker b, b_date b, b_start b, b_end b, b_status b))
     (bookings (book_all [late_request, late_request_again] no_bookings)) =
   [(''ravi'', ''asha'', ''2025-03-09'', ''18:00'', ''00:00'', ''confirmed''),
    (''meena'', ''asha'', ''2025-03-09'', ''18:00'', ''00:00'', ''confirmed'')]"
  by code_simp

subsection \<open>Requests outside the half-hour grid\<close>





end
